theory Spec2Isabelle
  imports Complex_Main "HOL-Library.Word" "HOL-Library.Sublist"
begin

section \<open>Bytes, slices and struct.unpack\<close>

text \<open>
  A datagram is a Python \<open>bytes\<close> object: a list of 8-bit values. Indexing it gives an
  \<open>int\<close> in 0..255 (here \<open>uint\<close> of the byte), slicing it gives \<open>bytes\<close> again.
\<close>

type_synonym byte = "8 word"
type_synonym bytes = "byte list"

text \<open>
  The exceptions the modelled code can raise: \<open>struct.error\<close> (unpack on a buffer of
  the wrong length), \<open>IndexError\<close> (index past the end), \<open>ZeroDivisionError\<close>, and
  whatever the Opus decoder raises on a frame it cannot decode.
\<close>

datatype py_error = StructError | IndexError | ZeroDivisionError | OpusError

text \<open>\<open>data[i:j]\<close> for constant bounds \<open>0 \<le> i \<le> j\<close>: clamped to the data, never raises.\<close>

definition py_slice :: "nat \<Rightarrow> nat \<Rightarrow> 'a list \<Rightarrow> 'a list" where
  "py_slice i j xs = take (j - i) (drop i xs)"

text \<open>\<open>data[i]\<close> for \<open>i \<ge> 0\<close>: raises IndexError past the end.\<close>

definition py_index :: "'a list \<Rightarrow> nat \<Rightarrow> py_error + 'a" where
  "py_index xs i = (if i < length xs then Inr (xs ! i) else Inl IndexError)"

text \<open>The unsigned little-endian value of a byte string: the first byte is the lowest.\<close>

fun le_value :: "bytes \<Rightarrow> int" where
  "le_value [] = 0"
| "le_value (b # bs) = uint b + 256 * le_value bs"

text \<open>
  \<open>struct.unpack('<I', b)[0]\<close>, \<open>struct.unpack('<H', b)[0]\<close> and
  \<open>struct.unpack('<Q', b)[0]\<close> are \<open>unpack_le 4 b\<close>, \<open>unpack_le 2 b\<close> and
  \<open>unpack_le 8 b\<close>: unpack raises \<open>struct.error\<close> unless the buffer has exactly the
  size of the format.
\<close>

definition unpack_le :: "nat \<Rightarrow> bytes \<Rightarrow> py_error + int" where
  "unpack_le n b = (if length b = n then Inr (le_value b) else Inl StructError)"

text \<open>
  \<open>struct.pack\<close> for the same formats, the inverse of \<open>unpack_le\<close> on values that fit:
  the \<open>n\<close> low bytes of \<open>v\<close>, lowest first. The sender uses it to build the wire
  format; the receivers only unpack.
\<close>

fun pack_le :: "nat \<Rightarrow> int \<Rightarrow> bytes" where
  "pack_le 0 v = []"
| "pack_le (Suc n) v = word_of_int (v mod 256) # pack_le n (v div 256)"

section \<open>Packet codec\<close>

text \<open>\<open>HEADER_MAGIC = b"SYNC"\<close>: the ASCII codes of S, Y, N, C.\<close>

definition HEADER_MAGIC :: bytes where
  "HEADER_MAGIC = [0x53, 0x59, 0x4E, 0x43]"

definition PACKET_TYPE_RAW :: int where
  "PACKET_TYPE_RAW = 0"

definition PACKET_TYPE_OPUS :: int where
  "PACKET_TYPE_OPUS = 1"

text \<open>
  The dict returned by \<open>parse_header\<close> of receiver_silent.py has the keys
  \<open>sample_rate\<close> and \<open>channels\<close>; the one of receiver_enhanced.py adds \<open>version\<close>,
  \<open>compression\<close> and \<open>compression_name\<close>.
\<close>

record basic_header =
  sample_rate :: int
  channels :: int

record header = basic_header +
  version :: int
  compression :: int
  compression_name :: string

text \<open>receiver_enhanced.py, \<open>parse_header\<close>: the 12-byte layout.\<close>

definition parse_header :: "bytes \<Rightarrow> py_error + header option" where
  "parse_header data =
    (if length data < 12 then Inr None
     else if py_slice 0 4 data \<noteq> HEADER_MAGIC then Inr None
     else
       (case py_index data 4 of Inl e \<Rightarrow> Inl e | Inr v \<Rightarrow>
       (case unpack_le 4 (py_slice 5 9 data) of Inl e \<Rightarrow> Inl e | Inr rate \<Rightarrow>
       (case unpack_le 2 (py_slice 9 11 data) of Inl e \<Rightarrow> Inl e | Inr ch \<Rightarrow>
       (case py_index data 11 of Inl e \<Rightarrow> Inl e | Inr c \<Rightarrow>
         Inr (Some \<lparr>sample_rate = rate, channels = ch, version = uint v,
                    compression = uint c,
                    compression_name = (if uint c = 1 then ''Opus'' else ''Raw'')\<rparr>))))))"

text \<open>receiver_silent.py, \<open>parse_header\<close>: the 10-byte layout.\<close>

definition parse_header_silent :: "bytes \<Rightarrow> py_error + basic_header option" where
  "parse_header_silent data =
    (if length data < 10 then Inr None
     else if py_slice 0 4 data \<noteq> HEADER_MAGIC then Inr None
     else
       (case unpack_le 4 (py_slice 4 8 data) of Inl e \<Rightarrow> Inl e | Inr rate \<Rightarrow>
       (case unpack_le 2 (py_slice 8 10 data) of Inl e \<Rightarrow> Inl e | Inr ch \<Rightarrow>
         Inr (Some \<lparr>sample_rate = rate, channels = ch\<rparr>))))"

text \<open>The dict returned by \<open>parse_audio_packet\<close>: keys type, timestamp, size, data.\<close>

record audio_packet =
  pkt_type :: int
  pkt_timestamp :: int
  pkt_size :: int
  pkt_data :: bytes

text \<open>receiver_enhanced.py, \<open>parse_audio_packet\<close>.\<close>

definition parse_audio_packet :: "bytes \<Rightarrow> py_error + audio_packet option" where
  "parse_audio_packet data =
    (if length data < 11 then Inr None
     else
       (case py_index data 0 of Inl e \<Rightarrow> Inl e | Inr packet_type \<Rightarrow>
       (case unpack_le 8 (py_slice 1 9 data) of Inl e \<Rightarrow> Inl e | Inr ts \<Rightarrow>
       (case unpack_le 2 (py_slice 9 11 data) of Inl e \<Rightarrow> Inl e | Inr sz \<Rightarrow>
         Inr (Some \<lparr>pkt_type = uint packet_type, pkt_timestamp = ts, pkt_size = sz,
                    pkt_data = py_slice 11 (11 + nat sz) data\<rparr>)))))"

section \<open>Jitter buffer\<close>

definition JITTER_BUFFER_SIZE :: nat where
  "JITTER_BUFFER_SIZE = 10"

definition JITTER_BUFFER_MIN :: nat where
  "JITTER_BUFFER_MIN = 3"

text \<open>
  \<open>class JitterBuffer\<close>: a \<open>collections.deque(maxlen=size)\<close>, oldest frame first. The
  lock makes each method atomic, so each is one function on the state.
\<close>

record 'a JitterBuffer =
  buffer :: "'a list"
  maxlen :: nat

definition JitterBuffer_init :: "nat \<Rightarrow> 'a JitterBuffer" where
  "JitterBuffer_init sz = \<lparr>buffer = [], maxlen = sz\<rparr>"

text \<open>
  \<open>deque.append\<close> on a bounded deque: the item is appended on the right, and when the
  deque is then longer than \<open>maxlen\<close> one item is removed on the left.
\<close>

definition deque_append :: "nat \<Rightarrow> 'a list \<Rightarrow> 'a \<Rightarrow> 'a list" where
  "deque_append n xs x = (if n < length (xs @ [x]) then tl (xs @ [x]) else xs @ [x])"

definition add :: "'a \<Rightarrow> 'a JitterBuffer \<Rightarrow> 'a JitterBuffer" where
  "add x jb = jb\<lparr>buffer := deque_append (maxlen jb) (buffer jb) x\<rparr>"

text \<open>
  \<open>get\<close> returns the frame (or \<open>None\<close>) and the buffer after the call. \<open>popleft\<close> is
  only reached with at least \<open>JITTER_BUFFER_MIN\<close> = 3 frames, so on a non-empty deque.
\<close>

definition get :: "'a JitterBuffer \<Rightarrow> 'a option \<times> 'a JitterBuffer" where
  "get jb =
    (if JITTER_BUFFER_MIN \<le> length (buffer jb)
     then (Some (hd (buffer jb)), jb\<lparr>buffer := tl (buffer jb)\<rparr>)
     else (None, jb))"

definition size_jb :: "'a JitterBuffer \<Rightarrow> nat" where
  "size_jb jb = length (buffer jb)"

text \<open>
  A sequence of calls on one buffer: \<open>Push x\<close> is \<open>add(x)\<close>, \<open>Pop\<close> is \<open>get()\<close>.
  \<open>run_ops\<close> returns what the \<open>get\<close> calls returned, in call order, and the final buffer.
\<close>

datatype 'a jb_op = Push 'a | Pop

fun run_ops :: "'a jb_op list \<Rightarrow> 'a JitterBuffer \<Rightarrow> 'a option list \<times> 'a JitterBuffer" where
  "run_ops [] jb = ([], jb)"
| "run_ops (Push x # ops) jb = run_ops ops (add x jb)"
| "run_ops (Pop # ops) jb =
    (case get jb of (r, jb') \<Rightarrow> (case run_ops ops jb' of (rs, jb'') \<Rightarrow> (r # rs, jb'')))"

text \<open>The frames a sequence of calls pushes, and the frames its \<open>get\<close> calls return.\<close>

fun pushed :: "'a jb_op list \<Rightarrow> 'a list" where
  "pushed [] = []"
| "pushed (Push x # ops) = x # pushed ops"
| "pushed (Pop # ops) = pushed ops"

fun frames :: "'a option list \<Rightarrow> 'a list" where
  "frames [] = []"
| "frames (None # rs) = frames rs"
| "frames (Some x # rs) = x # frames rs"

section \<open>Receiver loop of receiver_enhanced.py\<close>

text \<open>
  The decoder object: \<open>decoder.decode_float(payload, 2880, decode_fec=False)\<close> returns
  PCM bytes or raises.
\<close>

type_synonym decoder = "bytes \<Rightarrow> py_error + bytes"

text \<open>
  Decoder setup after the header: \<open>OPUS_AVAILABLE\<close> says whether \<open>import opuslib\<close>
  worked, \<open>Decoder\<close> is \<open>opuslib.Decoder\<close>, whose failure is caught and leaves
  \<open>decoder = None\<close>.
\<close>

definition setup_decoder ::
  "header \<Rightarrow> bool \<Rightarrow> (int \<Rightarrow> int \<Rightarrow> py_error + decoder) \<Rightarrow> decoder option" where
  "setup_decoder config OPUS_AVAILABLE Decoder =
    (if compression config = 1 then
       (if OPUS_AVAILABLE then
          (case Decoder (sample_rate config) (channels config) of
             Inr d \<Rightarrow> Some d
           | Inl e \<Rightarrow> None)
        else None)
     else None)"

text \<open>One line of the periodic report: the numbers it prints, before formatting.\<close>

record stats_report =
  rp_packet_count :: int
  rp_kbps :: real
  rp_avg_latency_ms :: real
  rp_buffer_fill :: nat
  rp_compression_ratio :: real

text \<open>
  The variables of the streaming loop, the frames written to the audio stream so far
  (\<open>stream\<close>, oldest first) and the report lines printed so far (\<open>printed\<close>).
\<close>

record rx_state =
  packet_count :: int
  bytes_received :: int
  total_latency_us :: int
  latency_count :: int
  start_time :: real
  last_report :: real
  jitter_buffer :: "bytes JitterBuffer"
  stream :: "bytes list"
  printed :: "stats_report list"

text \<open>The state before the loop; \<open>t0\<close> is what \<open>time.time()\<close> returned.\<close>

definition init_state :: "real \<Rightarrow> rx_state" where
  "init_state t0 =
    \<lparr>packet_count = 0, bytes_received = 0, total_latency_us = 0, latency_count = 0,
     start_time = t0, last_report = t0,
     jitter_buffer = JitterBuffer_init JITTER_BUFFER_SIZE, stream = [], printed = []\<rparr>"

text \<open>
  "Play from jitter buffer": one \<open>get\<close>, and the frame is written to the stream when it
  is truthy (neither \<open>None\<close> nor empty). The audio device is outside the model:
  \<open>stream.write\<close> is recorded as the frame it was given and is taken to return.
\<close>

definition play :: "rx_state \<Rightarrow> rx_state" where
  "play s =
    (case get (jitter_buffer s) of
       (None, jb) \<Rightarrow> s\<lparr>jitter_buffer := jb\<rparr>
     | (Some audio_data, jb) \<Rightarrow>
         (if audio_data \<noteq> [] then s\<lparr>jitter_buffer := jb, stream := stream s @ [audio_data]\<rparr>
          else s\<lparr>jitter_buffer := jb\<rparr>))"

text \<open>
  The loop body from \<open>recvfrom\<close> to the stream write. \<open>receive_time\<close> is what
  \<open>get_timestamp_us()\<close> returned. The result is an uncaught exception, or the new state
  with \<open>False\<close> where the body ended in \<open>continue\<close> and \<open>True\<close> where it goes on to
  the report.
\<close>

definition handle_datagram ::
  "decoder option \<Rightarrow> bytes \<Rightarrow> int \<Rightarrow> rx_state \<Rightarrow> py_error + (bool \<times> rx_state)" where
  "handle_datagram decoder data receive_time s =
    (if length data = 12 \<and> py_slice 0 4 data = HEADER_MAGIC then Inr (False, s)
     else
       (case parse_audio_packet data of
          Inl e \<Rightarrow> Inl e
        | Inr None \<Rightarrow> Inr (False, s)
        | Inr (Some packet) \<Rightarrow>
            (let s1 = s\<lparr>packet_count := packet_count s + 1,
                        bytes_received := bytes_received s + int (length data)\<rparr>;
                 latency_us = receive_time - pkt_timestamp packet;
                 s2 = s1\<lparr>total_latency_us := total_latency_us s1 + latency_us,
                         latency_count := latency_count s1 + 1\<rparr>
             in
               (case (if pkt_type packet = PACKET_TYPE_OPUS then decoder else None) of
                  Some dec \<Rightarrow>
                    (case dec (pkt_data packet) of
                       Inr pcm_data \<Rightarrow>
                         Inr (True, play (s2\<lparr>jitter_buffer := add pcm_data (jitter_buffer s2)\<rparr>))
                     | Inl e \<Rightarrow> Inr (False, s2))
                | None \<Rightarrow>
                    Inr (True,
                      play (s2\<lparr>jitter_buffer := add (pkt_data packet) (jitter_buffer s2)\<rparr>))))))"

text \<open>
  "Report stats every 2 seconds"; \<open>now\<close> is what \<open>time.time()\<close> returned. Dividing
  by zero raises. Times are Python floats, modelled here as the reals they denote, with
  exact subtraction, multiplication and division: the rounding of each float operation
  is not modelled. So the reported numbers are the exact values of the formulas, which
  the code's floats approximate, and where \<open>now - last_report\<close> is within one rounding
  error of 2.0 the code's test \<open>>= 2.0\<close> can come out differently from the model's.
\<close>

definition report_stats :: "header \<Rightarrow> real \<Rightarrow> rx_state \<Rightarrow> py_error + rx_state" where
  "report_stats config now s =
    (if 2 \<le> now - last_report s then
       (let elapsed = now - start_time s in
        if elapsed * 1000 = 0 then Inl ZeroDivisionError
        else
          (let kbps = real_of_int (bytes_received s * 8) / (elapsed * 1000);
               avg_latency_ms =
                 (if 0 < latency_count s
                  then (real_of_int (total_latency_us s) / real_of_int (latency_count s)) / 1000
                  else 0);
               buffer_fill = size_jb (jitter_buffer s);
               uncompressed_bps = sample_rate config * channels config * 32
           in
             if compression config = 1 \<and> uncompressed_bps = 0 then Inl ZeroDivisionError
             else
               Inr (s\<lparr>printed := printed s @
                         [\<lparr>rp_packet_count = packet_count s, rp_kbps = kbps,
                           rp_avg_latency_ms = avg_latency_ms, rp_buffer_fill = buffer_fill,
                           rp_compression_ratio =
                             (if compression config = 1
                              then (kbps * 1000) / real_of_int uncompressed_bps * 100
                              else 0)\<rparr>],
                       last_report := now\<rparr>)))
     else Inr s)"

text \<open>
  One iteration: a datagram, the microsecond clock read after parsing it and the
  \<open>time.time()\<close> read before the report.
\<close>

type_synonym event = "bytes \<times> int \<times> real"

definition loop_body ::
  "header \<Rightarrow> decoder option \<Rightarrow> event \<Rightarrow> rx_state \<Rightarrow> py_error + rx_state" where
  "loop_body config decoder ev s =
    (case ev of (data, receive_time, now) \<Rightarrow>
       (case handle_datagram decoder data receive_time s of
          Inl e \<Rightarrow> Inl e
        | Inr (False, s') \<Rightarrow> Inr s'
        | Inr (True, s') \<Rightarrow> report_stats config now s'))"

text \<open>
  \<open>while True\<close> over the datagrams that arrive: the state after a finite prefix of
  them, or the exception that ended the loop.
\<close>

fun receive_loop ::
  "header \<Rightarrow> decoder option \<Rightarrow> event list \<Rightarrow> rx_state \<Rightarrow> py_error + rx_state" where
  "receive_loop config decoder [] s = Inr s"
| "receive_loop config decoder (ev # evs) s =
    (case loop_body config decoder ev s of
       Inl e \<Rightarrow> Inl e
     | Inr s' \<Rightarrow> receive_loop config decoder evs s')"

section \<open>Receiver loop of receiver_silent.py\<close>

record silent_report =
  sr_packet_count :: int
  sr_megabytes :: real
  sr_kbps :: real
  sr_duration_sec :: real

record silent_state =
  s_packet_count :: int
  s_bytes_received :: int
  s_start_time :: real
  s_last_report :: real
  s_printed :: "silent_report list"

definition silent_init_state :: "real \<Rightarrow> silent_state" where
  "silent_init_state t0 =
    \<lparr>s_packet_count = 0, s_bytes_received = 0, s_start_time = t0, s_last_report = t0,
     s_printed = []\<rparr>"

text \<open>
  One iteration of the loop of receiver_silent.py; times as in \<open>report_stats\<close>
  (floats as exact reals).
\<close>

definition silent_loop_body ::
  "basic_header \<Rightarrow> bytes \<times> real \<Rightarrow> silent_state \<Rightarrow> py_error + silent_state" where
  "silent_loop_body config ev s =
    (case ev of (data, now) \<Rightarrow>
       if length data = 10 \<and> py_slice 0 4 data = HEADER_MAGIC then Inr s
       else
         (let s1 = s\<lparr>s_packet_count := s_packet_count s + 1,
                     s_bytes_received := s_bytes_received s + int (length data)\<rparr>
          in
            if 2 \<le> now - s_last_report s1 then
              (let elapsed = now - s_start_time s1 in
               if elapsed * 1000 = 0 then Inl ZeroDivisionError
               else
                 (let kbps = real_of_int (s_bytes_received s1 * 8) / (elapsed * 1000);
                      samples = s_bytes_received s1 div 4
                  in
                    if sample_rate config = 0 \<or> channels config = 0
                    then Inl ZeroDivisionError
                    else
                      Inr (s1\<lparr>s_printed := s_printed s1 @
                                 [\<lparr>sr_packet_count = s_packet_count s1,
                                   sr_megabytes = real_of_int (s_bytes_received s1) / 1024 / 1024,
                                   sr_kbps = kbps,
                                   sr_duration_sec =
                                     real_of_int samples / real_of_int (sample_rate config)
                                       / real_of_int (channels config)\<rparr>],
                               s_last_report := now\<rparr>)))
            else Inr s1))"


section \<open>Predicates used to state the properties\<close>

text \<open>
  The receiver's clock is not behind the sender's for this iteration: where the loop
  takes the datagram as an audio packet (it is not skipped as a header and it parses),
  its origin timestamp is not later than the receive time. The loop itself never tests
  this.
\<close>

definition clock_not_behind :: "event \<Rightarrow> bool" where
  "clock_not_behind ev =
    (case ev of (data, receive_time, now) \<Rightarrow>
       if length data = 12 \<and> py_slice 0 4 data = HEADER_MAGIC then True
       else
         (case parse_audio_packet data of
            Inr (Some p) \<Rightarrow> pkt_timestamp p \<le> receive_time
          | _ \<Rightarrow> True))"

section \<open>Properties of the packet codec\<close>

lemma length_pack_le: "length (pack_le n v) = n"
  by (induction n arbitrary: v) auto

lemma le_value_pack_le: "0 \<le> v \<Longrightarrow> v < 256 ^ n \<Longrightarrow> le_value (pack_le n v) = v"
proof (induction n arbitrary: v)
  case 0
  then show ?case by simp
next
  case (Suc n)
  have "v div 256 < 256 ^ n"
    using Suc.prems by (simp add: div_less_iff_less_mult mult.commute)
  moreover have "0 \<le> v div 256"
    using Suc.prems by simp
  ultimately have "le_value (pack_le n (v div 256)) = v div 256"
    by (rule Suc.IH [rotated -1])
  moreover have "uint (word_of_int (v mod 256) :: byte) = v mod 256"
    by (simp add: uint_word_of_int)
  ultimately show ?case by simp
qed

lemma py_slice_mid:
  "length pre = i \<Longrightarrow> length f = j - i \<Longrightarrow> py_slice i j (pre @ f @ post) = f"
  by (simp add: py_slice_def)

lemma length_py_slice: "j \<le> length xs \<Longrightarrow> length (py_slice i j xs) = j - i"
  by (simp add: py_slice_def)

lemma take4_slice: "py_slice 0 4 data = take 4 data"
  by (simp add: py_slice_def)

lemma length_HEADER_MAGIC: "length HEADER_MAGIC = 4"
  by (simp add: HEADER_MAGIC_def)

lemma parse_header_Some:
  assumes "12 \<le> length data" and "py_slice 0 4 data = HEADER_MAGIC"
  shows "parse_header data =
    Inr (Some \<lparr>sample_rate = le_value (py_slice 5 9 data),
               channels = le_value (py_slice 9 11 data),
               version = uint (data ! 4), compression = uint (data ! 11),
               compression_name = (if uint (data ! 11) = 1 then ''Opus'' else ''Raw'')\<rparr>)"
  using assms by (simp add: parse_header_def py_index_def unpack_le_def length_py_slice)

lemma parse_header_silent_Some:
  assumes "10 \<le> length data" and "py_slice 0 4 data = HEADER_MAGIC"
  shows "parse_header_silent data =
    Inr (Some \<lparr>sample_rate = le_value (py_slice 4 8 data),
               channels = le_value (py_slice 8 10 data)\<rparr>)"
  using assms by (simp add: parse_header_silent_def unpack_le_def length_py_slice)

lemma parse_header_encoded:
  assumes "0 \<le> rate" "rate < 2 ^ 32" "0 \<le> ch" "ch < 2 ^ 16"
  shows "parse_header (HEADER_MAGIC @ [v] @ pack_le 4 rate @ pack_le 2 ch @ [c] @ rest) =
    Inr (Some \<lparr>sample_rate = rate, channels = ch, version = uint v, compression = uint c,
               compression_name = (if uint c = 1 then ''Opus'' else ''Raw'')\<rparr>)"
proof -
  let ?d = "HEADER_MAGIC @ [v] @ pack_le 4 rate @ pack_le 2 ch @ [c] @ rest"
  have len: "12 \<le> length ?d"
    by (simp add: length_HEADER_MAGIC length_pack_le)
  have m: "py_slice 0 4 ?d = HEADER_MAGIC"
    using py_slice_mid [of "[]" 0 HEADER_MAGIC 4] by (simp add: length_HEADER_MAGIC)
  have r: "py_slice 5 9 ?d = pack_le 4 rate"
    using py_slice_mid [of "HEADER_MAGIC @ [v]" 5 "pack_le 4 rate" 9]
    by (simp add: length_HEADER_MAGIC length_pack_le)
  have c: "py_slice 9 11 ?d = pack_le 2 ch"
    using py_slice_mid [of "HEADER_MAGIC @ [v] @ pack_le 4 rate" 9 "pack_le 2 ch" 11]
    by (simp add: length_HEADER_MAGIC length_pack_le)
  have v: "?d ! 4 = v"
    by (simp add: nth_append length_HEADER_MAGIC)
  have k: "?d ! 11 = c"
    using nth_append_length [of "HEADER_MAGIC @ [v] @ pack_le 4 rate @ pack_le 2 ch" c rest]
    by (simp add: length_HEADER_MAGIC length_pack_le)
  have "le_value (pack_le 4 rate) = rate" "le_value (pack_le 2 ch) = ch"
    using assms by (simp_all add: le_value_pack_le)
  then show ?thesis
    unfolding parse_header_Some [OF len m] r c v k by simp
qed

lemma parse_header_silent_encoded:
  assumes "0 \<le> rate" "rate < 2 ^ 32" "0 \<le> ch" "ch < 2 ^ 16"
  shows "parse_header_silent (HEADER_MAGIC @ pack_le 4 rate @ pack_le 2 ch @ rest) =
    Inr (Some \<lparr>sample_rate = rate, channels = ch\<rparr>)"
proof -
  let ?d = "HEADER_MAGIC @ pack_le 4 rate @ pack_le 2 ch @ rest"
  have len: "10 \<le> length ?d"
    by (simp add: length_HEADER_MAGIC length_pack_le)
  have m: "py_slice 0 4 ?d = HEADER_MAGIC"
    using py_slice_mid [of "[]" 0 HEADER_MAGIC 4] by (simp add: length_HEADER_MAGIC)
  have r: "py_slice 4 8 ?d = pack_le 4 rate"
    using py_slice_mid [of "HEADER_MAGIC" 4 "pack_le 4 rate" 8]
    by (simp add: length_HEADER_MAGIC length_pack_le)
  have c: "py_slice 8 10 ?d = pack_le 2 ch"
    using py_slice_mid [of "HEADER_MAGIC @ pack_le 4 rate" 8 "pack_le 2 ch" 10]
    by (simp add: length_HEADER_MAGIC length_pack_le)
  have "le_value (pack_le 4 rate) = rate" "le_value (pack_le 2 ch) = ch"
    using assms by (simp_all add: le_value_pack_le)
  then show ?thesis
    unfolding parse_header_silent_Some [OF len m] r c by simp
qed

lemma parse_header_None_iff:
  "parse_header data = Inr None \<longleftrightarrow> length data < 12 \<or> py_slice 0 4 data \<noteq> HEADER_MAGIC"
  by (auto simp: parse_header_def py_index_def unpack_le_def length_py_slice)

lemma parse_header_silent_None_iff:
  "parse_header_silent data = Inr None \<longleftrightarrow>
     length data < 10 \<or> py_slice 0 4 data \<noteq> HEADER_MAGIC"
  by (auto simp: parse_header_silent_def unpack_le_def length_py_slice)

lemma parse_header_no_raise: "parse_header data \<noteq> Inl e"
  by (auto simp: parse_header_def py_index_def unpack_le_def length_py_slice)

lemma parse_header_silent_no_raise: "parse_header_silent data \<noteq> Inl e"
  by (auto simp: parse_header_silent_def unpack_le_def length_py_slice)

lemma parse_audio_packet_Some:
  assumes "11 \<le> length data"
  shows "parse_audio_packet data =
    Inr (Some \<lparr>pkt_type = uint (data ! 0), pkt_timestamp = le_value (py_slice 1 9 data),
               pkt_size = le_value (py_slice 9 11 data),
               pkt_data = py_slice 11 (11 + nat (le_value (py_slice 9 11 data))) data\<rparr>)"
  using assms
  by (auto simp: parse_audio_packet_def py_index_def unpack_le_def length_py_slice)

lemma size_field_bytes:
  assumes "11 \<le> length data"
  shows "py_slice 9 11 data = [data ! 9, data ! 10]"
proof -
  have "drop 9 data = data ! 9 # drop 10 data"
    using assms Cons_nth_drop_Suc [of 9 data] by simp
  moreover have "drop 10 data = data ! 10 # drop 11 data"
    using assms Cons_nth_drop_Suc [of 10 data] by simp
  ultimately show ?thesis
    by (simp add: py_slice_def numeral_2_eq_2)
qed

text \<open>
  What the two parsers do on every input. A datagram that starts with the magic,
  followed by the fields of the 12-byte layout (version, little-endian uint32 sample
  rate, little-endian uint16 channel count, compression flag) and by the bytes \<open>rest\<close>,
  is parsed by \<open>parse_header\<close> of receiver_enhanced.py into exactly these values; one
  that starts with the magic followed by the fields of the 10-byte layout and by
  \<open>rest\<close> is parsed by \<open>parse_header\<close> of receiver_silent.py into exactly these
  values. With \<open>rest = []\<close> these are the headers of exactly 12 and 10 bytes. Each
  parser returns \<open>None\<close> exactly when the datagram is shorter than its layout or does
  not start with the magic, and neither ever raises.
\<close>

lemma parse_header_fields:
  "(0 \<le> rate \<and> rate < 2 ^ 32 \<and> 0 \<le> ch \<and> ch < 2 ^ 16 \<longrightarrow>
      parse_header (HEADER_MAGIC @ [v] @ pack_le 4 rate @ pack_le 2 ch @ [c] @ rest) =
        Inr (Some \<lparr>sample_rate = rate, channels = ch, version = uint v,
                   compression = uint c,
                   compression_name = (if uint c = 1 then ''Opus'' else ''Raw'')\<rparr>) \<and>
      parse_header_silent (HEADER_MAGIC @ pack_le 4 rate @ pack_le 2 ch @ rest) =
        Inr (Some \<lparr>sample_rate = rate, channels = ch\<rparr>)) \<and>
   (parse_header data = Inr None \<longleftrightarrow> length data < 12 \<or> take 4 data \<noteq> HEADER_MAGIC) \<and>
   (parse_header_silent data = Inr None \<longleftrightarrow>
      length data < 10 \<or> take 4 data \<noteq> HEADER_MAGIC) \<and>
   parse_header data \<noteq> Inl e \<and> parse_header_silent data \<noteq> Inl e"
  using parse_header_encoded [of rate ch v c rest]
    parse_header_silent_encoded [of rate ch rest]
    parse_header_None_iff [of data] parse_header_silent_None_iff [of data]
    parse_header_no_raise [of data e] parse_header_silent_no_raise [of data e]
  unfolding take4_slice by blast

text \<open>
  C1, the code at the failing inputs. C1 says that a datagram whose length is neither 10
  nor 12 is never a header, and the streaming loops of both files recognise a header by
  its exact length (\<open>len(data) == 12\<close>, \<open>len(data) == 10\<close>). The parsers test
  \<open>len(data) < 12\<close> and \<open>len(data) < 10\<close> only:
  \<^item> \<open>parse_header\<close> of receiver_enhanced.py returns a header for a 13-byte datagram
    that starts with the magic, while the loop of the same file does not skip this
    datagram as a header and counts it as an audio frame of type 0x53;
  \<^item> \<open>parse_header\<close> of receiver_silent.py returns a header for an 11-byte datagram
    that starts with the magic, while the loop of the same file counts it as audio;
  \<^item> \<open>parse_header\<close> of receiver_silent.py also returns a header for a 12-byte header
    of the other layout, read as 12288001 Hz and 512 channels.
\<close>

theorem parse_header_accepts_overlong:
  "length [0x53, 0x59, 0x4E, 0x43, 1, 0x80, 0xBB, 0, 0, 2, 0, 0, 0xFF :: byte] = 13 \<and>
   parse_header [0x53, 0x59, 0x4E, 0x43, 1, 0x80, 0xBB, 0, 0, 2, 0, 0, 0xFF] =
     Inr (Some \<lparr>sample_rate = 48000, channels = 2, version = 1, compression = 0,
                compression_name = ''Raw''\<rparr>) \<and>
   handle_datagram None [0x53, 0x59, 0x4E, 0x43, 1, 0x80, 0xBB, 0, 0, 2, 0, 0, 0xFF] 0
     (init_state 0) =
     Inr (True,
       \<lparr>packet_count = 1, bytes_received = 13, total_latency_us = - 206158451396185,
        latency_count = 1, start_time = 0, last_report = 0,
        jitter_buffer = \<lparr>buffer = [[0, 0xFF]], maxlen = 10\<rparr>, stream = [],
        printed = []\<rparr>) \<and>
   length [0x53, 0x59, 0x4E, 0x43, 0x80, 0xBB, 0, 0, 2, 0, 0xFF :: byte] = 11 \<and>
   parse_header_silent [0x53, 0x59, 0x4E, 0x43, 0x80, 0xBB, 0, 0, 2, 0, 0xFF] =
     Inr (Some \<lparr>sample_rate = 48000, channels = 2\<rparr>) \<and>
   silent_loop_body \<lparr>sample_rate = 48000, channels = 2\<rparr>
     ([0x53, 0x59, 0x4E, 0x43, 0x80, 0xBB, 0, 0, 2, 0, 0xFF], 1) (silent_init_state 0) =
     Inr \<lparr>s_packet_count = 1, s_bytes_received = 11, s_start_time = 0,
          s_last_report = 0, s_printed = []\<rparr> \<and>
   length [0x53, 0x59, 0x4E, 0x43, 1, 0x80, 0xBB, 0, 0, 2, 0, 0 :: byte] = 12 \<and>
   parse_header_silent [0x53, 0x59, 0x4E, 0x43, 1, 0x80, 0xBB, 0, 0, 2, 0, 0] =
     Inr (Some \<lparr>sample_rate = 12288001, channels = 512\<rparr>)"
  by (simp add: parse_header_def parse_header_silent_def py_index_def unpack_le_def
      py_slice_def HEADER_MAGIC_def handle_datagram_def parse_audio_packet_def play_def
      get_def add_def deque_append_def PACKET_TYPE_OPUS_def JITTER_BUFFER_MIN_def
      JITTER_BUFFER_SIZE_def JitterBuffer_init_def init_state_def silent_loop_body_def
      silent_init_state_def Let_def)

text \<open>
  C4: on a datagram of at least 11 bytes \<open>parse_audio_packet\<close> returns a packet and does
  not raise; its payload is the first \<open>size\<close> bytes after the 11-byte prefix, so never
  longer than what the datagram holds there; and when the declared size (the
  little-endian uint16 at offsets 9 and 10) exceeds the bytes that remain, the payload
  is exactly the remaining bytes.
\<close>

theorem parse_audio_packet_clamps_payload:
  "11 \<le> length data \<Longrightarrow>
   \<exists>p. parse_audio_packet data = Inr (Some p) \<and>
       pkt_size p = uint (data ! 9) + 256 * uint (data ! 10) \<and>
       pkt_data p = take (nat (pkt_size p)) (drop 11 data) \<and>
       length (pkt_data p) \<le> length data - 11 \<and>
       (int (length data) - 11 < pkt_size p \<longrightarrow>
          pkt_data p = drop 11 data \<and> length (pkt_data p) = length data - 11)"
proof -
  assume len: "11 \<le> length data"
  show ?thesis
    unfolding parse_audio_packet_Some [OF len] size_field_bytes [OF len]
    by (simp add: py_slice_def)
qed

text \<open>C4, witness: a frame that declares 5 payload bytes and carries 2.\<close>

theorem parse_audio_packet_clamps_payload_witness:
  "\<exists>p. parse_audio_packet [0, 1, 0, 0, 0, 0, 0, 0, 0, 5, 0, 0xAA, 0xBB] = Inr (Some p) \<and>
       pkt_size p = 5 \<and> pkt_data p = [0xAA, 0xBB] \<and> length (pkt_data p) = 2"
  using parse_audio_packet_clamps_payload
    [of "[0, 1, 0, 0, 0, 0, 0, 0, 0, 5, 0, 0xAA, 0xBB]"]
  by auto

text \<open>
  C10: on a datagram of at least 11 bytes \<open>parse_audio_packet\<close> returns a packet
  whatever the type byte is, the packet's type is that byte, and its \<open>size\<close> field is
  the little-endian uint16 of the wire even where the payload was clamped: where the
  declared size exceeds the bytes that remain, \<open>size\<close> is strictly greater than the
  length of the returned payload. Such datagrams exist.
\<close>

theorem parse_audio_packet_size_not_clamped:
  "(11 \<le> length data \<longrightarrow>
      (\<exists>p. parse_audio_packet data = Inr (Some p) \<and>
           pkt_type p = uint (data ! 0) \<and>
           pkt_size p = uint (data ! 9) + 256 * uint (data ! 10) \<and>
           (int (length data) - 11 < pkt_size p \<longrightarrow>
              int (length (pkt_data p)) < pkt_size p))) \<and>
   (\<exists>d p. parse_audio_packet d = Inr (Some p) \<and> int (length (pkt_data p)) < pkt_size p)"
proof
  show "11 \<le> length data \<longrightarrow>
      (\<exists>p. parse_audio_packet data = Inr (Some p) \<and>
           pkt_type p = uint (data ! 0) \<and>
           pkt_size p = uint (data ! 9) + 256 * uint (data ! 10) \<and>
           (int (length data) - 11 < pkt_size p \<longrightarrow>
              int (length (pkt_data p)) < pkt_size p))"
  proof
    assume len: "11 \<le> length data"
    show "\<exists>p. parse_audio_packet data = Inr (Some p) \<and>
           pkt_type p = uint (data ! 0) \<and>
           pkt_size p = uint (data ! 9) + 256 * uint (data ! 10) \<and>
           (int (length data) - 11 < pkt_size p \<longrightarrow>
              int (length (pkt_data p)) < pkt_size p)"
      unfolding parse_audio_packet_Some [OF len] size_field_bytes [OF len]
      using len by (auto simp: py_slice_def)
  qed
next
  have "parse_audio_packet [7, 0, 0, 0, 0, 0, 0, 0, 0, 5, 0, 0xAA] =
      Inr (Some \<lparr>pkt_type = 7, pkt_timestamp = 0, pkt_size = 5, pkt_data = [0xAA]\<rparr>)"
    by (simp add: parse_audio_packet_def py_index_def unpack_le_def py_slice_def)
  then show "\<exists>d p. parse_audio_packet d = Inr (Some p) \<and>
      int (length (pkt_data p)) < pkt_size p"
    by (intro exI [of _ "[7, 0, 0, 0, 0, 0, 0, 0, 0, 5, 0, 0xAA]"]
        exI [of _ "\<lparr>pkt_type = 7, pkt_timestamp = 0, pkt_size = 5, pkt_data = [0xAA]\<rparr>"])
      simp
qed

text \<open>
  C10, witness: a frame with the type byte 7 (neither raw nor Opus) that declares 5
  payload bytes and carries 1.
\<close>

theorem parse_audio_packet_size_not_clamped_witness:
  "\<exists>p. parse_audio_packet [7, 0, 0, 0, 0, 0, 0, 0, 0, 5, 0, 0xAA] = Inr (Some p) \<and>
       pkt_type p = 7 \<and> pkt_size p = 5 \<and> int (length (pkt_data p)) < pkt_size p"
  using parse_audio_packet_size_not_clamped [of "[7, 0, 0, 0, 0, 0, 0, 0, 0, 5, 0, 0xAA]"]
  by auto

section \<open>Properties of the jitter buffer\<close>

lemma maxlen_add: "maxlen (add x jb) = maxlen jb"
  by (simp add: add_def)

lemma maxlen_get: "maxlen (snd (get jb)) = maxlen jb"
  by (simp add: get_def)

lemma length_deque_append:
  "length xs \<le> n \<Longrightarrow> length (deque_append n xs x) \<le> n"
  by (simp add: deque_append_def)

lemma suffix_deque_append: "suffix (deque_append n xs x) (xs @ [x])"
proof (cases "n < length (xs @ [x])")
  case True
  then have "deque_append n xs x = tl (xs @ [x])"
    by (simp only: deque_append_def if_True)
  then show ?thesis
    by (simp only: suffix_tl)
next
  case False
  then have "deque_append n xs x = xs @ [x]"
    by (simp only: deque_append_def if_False)
  then show ?thesis
    by (simp only: suffix_order.refl)
qed

lemma run_ops_maxlen: "maxlen (snd (run_ops ops jb)) = maxlen jb"
proof (induction ops jb rule: run_ops.induct)
  case (1 jb)
  then show ?case by simp
next
  case (2 x ops jb)
  then show ?case by (simp add: maxlen_add)
next
  case (3 ops jb)
  then show ?case
    using maxlen_get [of jb] by (auto split: prod.splits)
qed

lemma run_ops_bounded:
  "length (buffer jb) \<le> maxlen jb \<Longrightarrow>
   length (buffer (snd (run_ops ops jb))) \<le> maxlen jb"
proof (induction ops jb rule: run_ops.induct)
  case (1 jb)
  then show ?case by simp
next
  case (2 x ops jb)
  have "length (buffer (add x jb)) \<le> maxlen (add x jb)"
    using 2(2) by (simp add: add_def length_deque_append)
  from 2(1) [OF this] show ?case by (simp add: maxlen_add)
next
  case (3 ops jb)
  obtain r jb' where g: "get jb = (r, jb')" by (cases "get jb")
  have "length (buffer jb') \<le> maxlen jb'"
    using g 3(2) by (auto simp: get_def split: if_splits)
  from 3(1) [OF g [symmetric] this] have "length (buffer (snd (run_ops ops jb'))) \<le> maxlen jb'" .
  moreover have "maxlen jb' = maxlen jb"
    using g by (auto simp: get_def split: if_splits)
  ultimately show ?case using g by (simp add: case_prod_beta)
qed

lemma run_ops_fifo:
  "suffix (buffer (snd (run_ops ops jb))) (buffer jb @ pushed ops) \<and>
   subseq (frames (fst (run_ops ops jb)) @ buffer (snd (run_ops ops jb)))
     (buffer jb @ pushed ops)"
proof (induction ops jb rule: run_ops.induct)
  case (1 jb)
  then show ?case by simp
next
  case (2 x ops jb)
  let ?b = "deque_append (maxlen jb) (buffer jb) x"
  have b: "buffer (add x jb) = ?b" by (simp add: add_def)
  have sf: "suffix (?b @ pushed ops) ((buffer jb @ [x]) @ pushed ops)"
    using suffix_deque_append [of "maxlen jb" "buffer jb" x]
    by (meson suffix_def append.assoc same_suffix_suffix suffix_append) 
  have ss: "subseq (?b @ pushed ops) ((buffer jb @ [x]) @ pushed ops)"
    using sf by (rule suffix_imp_subseq) 
  show ?case
    using 2 sf ss unfolding b
    by (auto intro: suffix_order.trans subseq_order.trans)
next
  case (3 ops jb)
  obtain r jb' where g: "get jb = (r, jb')" by (cases "get jb")
  note ih = 3 [OF g [symmetric]]
  show ?case
  proof (cases "JITTER_BUFFER_MIN \<le> length (buffer jb)")
    case True
    then have ne: "buffer jb \<noteq> []" by (auto simp: JITTER_BUFFER_MIN_def)
    then obtain h t where ht: "buffer jb = h # t" by (cases "buffer jb") auto
    have r: "r = Some h" and b': "buffer jb' = t"
      using g True ht by (auto simp: get_def)
    from ih have "suffix (buffer (snd (run_ops ops jb'))) (t @ pushed ops)"
      and "subseq (frames (fst (run_ops ops jb')) @ buffer (snd (run_ops ops jb'))) (t @ pushed ops)"
      unfolding b' by auto
    then show ?thesis
      using g r ht by (auto simp: suffix_Cons split: prod.splits)
  next
    case False
    then have "r = None" "jb' = jb" using g by (auto simp: get_def)
    then show ?thesis using ih g by (auto split: prod.splits)
  qed
qed

lemma run_ops_no_eviction:
  "length (buffer jb) + length (pushed ops) \<le> maxlen jb \<Longrightarrow>
   frames (fst (run_ops ops jb)) @ buffer (snd (run_ops ops jb)) = buffer jb @ pushed ops"
proof (induction ops jb rule: run_ops.induct)
  case (1 jb)
  then show ?case by simp
next
  case (2 x ops jb)
  have b: "buffer (add x jb) = buffer jb @ [x]"
    using 2(2) by (simp add: add_def deque_append_def)
  have "length (buffer (add x jb)) + length (pushed ops) \<le> maxlen (add x jb)"
    using 2(2) by (simp add: b maxlen_add)
  from 2(1) [OF this] show ?case by (simp add: b)
next
  case (3 ops jb)
  obtain r jb' where g: "get jb = (r, jb')" by (cases "get jb")
  show ?case
  proof (cases "JITTER_BUFFER_MIN \<le> length (buffer jb)")
    case True
    then have ne: "buffer jb \<noteq> []" by (auto simp: JITTER_BUFFER_MIN_def)
    then obtain h t where ht: "buffer jb = h # t" by (cases "buffer jb") auto
    have r: "r = Some h" and b': "buffer jb' = t" and m: "maxlen jb' = maxlen jb"
      using g True ht by (auto simp: get_def)
    have "length (buffer jb') + length (pushed ops) \<le> maxlen jb'"
      using 3(2) by (simp add: b' m ht)
    from 3(1) [OF g [symmetric] this] show ?thesis
      using g r ht b' by (simp add: case_prod_beta)
  next
    case False
    then have "r = None" "jb' = jb" using g by (auto simp: get_def)
    then show ?thesis using 3 g by (auto split: prod.splits)
  qed
qed


lemma suffix_is_drop: "suffix xs ys \<Longrightarrow> xs = drop (length ys - length xs) ys"
  by (auto simp: suffix_def)

text \<open>
  C3: after any sequence of \<open>add\<close> and \<open>get\<close> calls on a new buffer of capacity 10,
  the occupancy is at most 10; \<open>get\<close> returns \<open>None\<close> and leaves the buffer as it is
  when the occupancy is below 3; with an occupancy of at least 3 it returns and removes
  the oldest buffered frame. The buffer always holds the most recently pushed frames in
  push order, and the frames returned so far followed by the buffered ones are a
  subsequence of the pushed frames in push order (all of them, when at most 10 frames
  were pushed, so that none was evicted).
\<close>

theorem jitter_buffer_bounded_fifo:
  "run_ops ops (JitterBuffer_init JITTER_BUFFER_SIZE) = (rs, jb) \<Longrightarrow>
     size_jb jb \<le> JITTER_BUFFER_SIZE \<and>
     (size_jb jb < JITTER_BUFFER_MIN \<longrightarrow> get jb = (None, jb)) \<and>
     (JITTER_BUFFER_MIN \<le> size_jb jb \<longrightarrow>
        (\<exists>x xs. buffer jb = x # xs \<and> get jb = (Some x, jb\<lparr>buffer := xs\<rparr>))) \<and>
     suffix (buffer jb) (pushed ops) \<and>
     subseq (frames rs @ buffer jb) (pushed ops) \<and>
     (length (pushed ops) \<le> JITTER_BUFFER_SIZE \<longrightarrow> frames rs @ buffer jb = pushed ops)"
proof -
  let ?init = "JitterBuffer_init JITTER_BUFFER_SIZE :: 'a JitterBuffer"
  assume run: "run_ops ops ?init = (rs, jb)"
  have init: "buffer ?init = []" "maxlen ?init = JITTER_BUFFER_SIZE"
    by (simp_all add: JitterBuffer_init_def)
  have "size_jb jb \<le> JITTER_BUFFER_SIZE"
    using run_ops_bounded [of ?init ops] run by (simp add: init size_jb_def)
  moreover have "size_jb jb < JITTER_BUFFER_MIN \<longrightarrow> get jb = (None, jb)"
    by (simp add: size_jb_def get_def)
  moreover have "JITTER_BUFFER_MIN \<le> size_jb jb \<longrightarrow>
      (\<exists>x xs. buffer jb = x # xs \<and> get jb = (Some x, jb\<lparr>buffer := xs\<rparr>))"
    by (cases "buffer jb") (auto simp: size_jb_def get_def JITTER_BUFFER_MIN_def)
  moreover have "suffix (buffer jb) (pushed ops)"
    and "subseq (frames rs @ buffer jb) (pushed ops)"
    using run_ops_fifo [of ops ?init] run by (simp_all add: init)
  moreover have "length (pushed ops) \<le> JITTER_BUFFER_SIZE \<longrightarrow>
      frames rs @ buffer jb = pushed ops"
    using run_ops_no_eviction [of ?init ops] run by (simp add: init)
  ultimately show ?thesis by blast
qed

text \<open>
  C3, witness: four pushes with three \<open>get\<close> calls in between; only the second call
  finds three frames.
\<close>

theorem jitter_buffer_bounded_fifo_witness:
  "run_ops [Push (1::nat), Pop, Push 2, Push 3, Pop, Pop, Push 4]
      (JitterBuffer_init JITTER_BUFFER_SIZE) =
     ([None, Some 1, None], \<lparr>buffer = [2, 3, 4], maxlen = 10\<rparr>) \<and>
   size_jb \<lparr>buffer = [2, 3, 4 :: nat], maxlen = 10\<rparr> \<le> JITTER_BUFFER_SIZE \<and>
   get \<lparr>buffer = [2, 3, 4 :: nat], maxlen = 10\<rparr> =
     (Some 2, \<lparr>buffer = [3, 4], maxlen = 10\<rparr>) \<and>
   frames [None, Some 1, None] @ [2, 3, 4] = pushed [Push (1::nat), Pop, Push 2, Push 3, Pop, Pop, Push 4]"
  using jitter_buffer_bounded_fifo
    [of "[Push (1::nat), Pop, Push 2, Push 3, Pop, Pop, Push 4]"
      "[None, Some 1, None]" "\<lparr>buffer = [2, 3, 4], maxlen = 10\<rparr>"]
  by (simp add: JitterBuffer_init_def JITTER_BUFFER_SIZE_def JITTER_BUFFER_MIN_def
      add_def get_def deque_append_def size_jb_def)

text \<open>
  C5: when \<open>add\<close> is called on a buffer that holds as many frames as its capacity
  \<open>n > 0\<close>, the oldest frame is removed and the new one appended, the occupancy stays
  at \<open>n\<close>, and the buffer then holds the \<open>n\<close> most recently pushed frames in push
  order.
\<close>

theorem add_at_capacity_drops_oldest:
  "run_ops ops (JitterBuffer_init n) = (rs, jb) \<Longrightarrow> 0 < n \<Longrightarrow> size_jb jb = n \<Longrightarrow>
     buffer (add x jb) = tl (buffer jb) @ [x] \<and>
     size_jb (add x jb) = n \<and>
     buffer (add x jb) = drop (length (pushed ops @ [x]) - n) (pushed ops @ [x])"
proof -
  let ?init = "JitterBuffer_init n :: 'a JitterBuffer"
  assume run: "run_ops ops ?init = (rs, jb)" and n: "0 < n" and full: "size_jb jb = n"
  have init: "buffer ?init = []" "maxlen ?init = n"
    by (simp_all add: JitterBuffer_init_def)
  have m: "maxlen jb = n"
    using run_ops_maxlen [of ops ?init] run by (simp add: init)
  have len: "length (buffer jb) = n"
    using full by (simp add: size_jb_def)
  have ne: "buffer jb \<noteq> []"
    using len n by auto
  have b: "buffer (add x jb) = tl (buffer jb) @ [x]"
    using ne by (simp add: add_def deque_append_def m len)
  have "suffix (buffer jb) (pushed ops)"
    using run_ops_fifo [of ops ?init] run by (simp add: init)
  then have d: "buffer jb = drop (length (pushed ops) - n) (pushed ops)"
    using suffix_is_drop [of "buffer jb" "pushed ops"] len by simp
  have ge: "n \<le> length (pushed ops)"
    using d len by (metis diff_le_self length_drop le_trans linorder_le_cases diff_is_0_eq' drop0) 
  have "tl (buffer jb) = drop (Suc (length (pushed ops) - n)) (pushed ops)"
    by (subst d) (simp add: drop_Suc tl_drop)
  then have "tl (buffer jb) @ [x] = drop (Suc (length (pushed ops)) - n) (pushed ops @ [x])"
    using ge n by (simp add: Suc_diff_le)
  then have last_n: "buffer (add x jb) = drop (length (pushed ops @ [x]) - n) (pushed ops @ [x])"
    using b by simp
  have "length (tl (buffer jb) @ [x]) = n"
    using len n by simp
  then have sz: "size_jb (add x jb) = n"
    unfolding size_jb_def b .
  from b sz last_n show ?thesis
    by (intro conjI)
qed

text \<open>C5, witness: the eleventh push on a buffer of capacity 10.\<close>

theorem add_at_capacity_drops_oldest_witness:
  "run_ops (map Push [1, 2, 3, 4, 5, 6, 7, 8, 9, 10 :: nat]) (JitterBuffer_init 10) =
     ([], \<lparr>buffer = [1, 2, 3, 4, 5, 6, 7, 8, 9, 10], maxlen = 10\<rparr>) \<and>
   buffer (add 11 \<lparr>buffer = [1, 2, 3, 4, 5, 6, 7, 8, 9, 10 :: nat], maxlen = 10\<rparr>) =
     [2, 3, 4, 5, 6, 7, 8, 9, 10, 11] \<and>
   size_jb (add 11 \<lparr>buffer = [1, 2, 3, 4, 5, 6, 7, 8, 9, 10 :: nat], maxlen = 10\<rparr>) = 10"
  using add_at_capacity_drops_oldest
    [of "map Push [1, 2, 3, 4, 5, 6, 7, 8, 9, 10 :: nat]" 10 "[]"
      "\<lparr>buffer = [1, 2, 3, 4, 5, 6, 7, 8, 9, 10], maxlen = 10\<rparr>" 11]
  by (simp add: JitterBuffer_init_def add_def deque_append_def size_jb_def)

section \<open>Properties of the receiver loop\<close>

lemma parse_audio_packet_no_raise: "parse_audio_packet data \<noteq> Inl e"
  by (auto simp: parse_audio_packet_def py_index_def unpack_le_def length_py_slice)

lemma parse_audio_packet_None_iff: "parse_audio_packet data = Inr None \<longleftrightarrow> length data < 11"
  by (auto simp: parse_audio_packet_def py_index_def unpack_le_def length_py_slice)

lemma play_fields:
  "packet_count (play s) = packet_count s"
  "bytes_received (play s) = bytes_received s"
  "total_latency_us (play s) = total_latency_us s"
  "latency_count (play s) = latency_count s"
  "start_time (play s) = start_time s"
  "last_report (play s) = last_report s"
  "printed (play s) = printed s"
  by (simp_all add: play_def split: prod.splits option.splits)

lemma handle_datagram_skipped:
  assumes "(length data = 12 \<and> py_slice 0 4 data = HEADER_MAGIC) \<or> length data < 11"
  shows "handle_datagram decoder data receive_time s = Inr (False, s)"
  using assms parse_audio_packet_None_iff [of data]
  by (auto simp: handle_datagram_def)

lemma handle_datagram_counted:
  assumes "\<not> (length data = 12 \<and> py_slice 0 4 data = HEADER_MAGIC)"
    and "parse_audio_packet data = Inr (Some packet)"
  shows "\<exists>b s'. handle_datagram decoder data receive_time s = Inr (b, s') \<and>
    packet_count s' = packet_count s + 1 \<and>
    bytes_received s' = bytes_received s + int (length data) \<and>
    total_latency_us s' = total_latency_us s + (receive_time - pkt_timestamp packet) \<and>
    latency_count s' = latency_count s + 1 \<and>
    start_time s' = start_time s \<and> last_report s' = last_report s \<and>
    printed s' = printed s"
  using assms
  by (auto simp: handle_datagram_def Let_def play_fields split: option.splits sum.splits)

lemma report_stats_fields:
  assumes "report_stats config now s = Inr s'"
  shows "packet_count s' = packet_count s" "bytes_received s' = bytes_received s"
    "total_latency_us s' = total_latency_us s" "latency_count s' = latency_count s"
    "start_time s' = start_time s" "jitter_buffer s' = jitter_buffer s"
    "stream s' = stream s"
  using assms by (auto simp: report_stats_def Let_def split: if_splits)


lemma report_stats_returns:
  assumes "start_time s \<le> last_report s"
    and "compression config \<noteq> 1 \<or> sample_rate config * channels config \<noteq> 0"
  shows "\<exists>s'. report_stats config now s = Inr s' \<and> start_time s' \<le> last_report s'"
  using assms by (auto simp: report_stats_def Let_def)


lemma handle_datagram_monotone:
  "\<exists>b s'. handle_datagram decoder data receive_time s = Inr (b, s') \<and>
    packet_count s \<le> packet_count s' \<and> bytes_received s \<le> bytes_received s' \<and>
    latency_count s \<le> latency_count s' \<and>
    start_time s' = start_time s \<and> last_report s' = last_report s \<and>
    (clock_not_behind (data, receive_time, now) \<longrightarrow>
       total_latency_us s \<le> total_latency_us s')"
proof (cases "(length data = 12 \<and> py_slice 0 4 data = HEADER_MAGIC) \<or> length data < 11")
  case True
  have "handle_datagram decoder data receive_time s = Inr (False, s)"
    by (rule handle_datagram_skipped [OF True])
  then show ?thesis by (intro exI [of _ False] exI [of _ s]) simp
next
  case False
  then have len: "11 \<le> length data" by simp
  obtain p where p: "parse_audio_packet data = Inr (Some p)"
    using parse_audio_packet_Some [OF len] by blast
  from False have nh: "\<not> (length data = 12 \<and> py_slice 0 4 data = HEADER_MAGIC)" by simp
  from handle_datagram_counted [OF nh p, of decoder receive_time s]
  show ?thesis using p nh by (auto simp: clock_not_behind_def)
qed

lemma loop_body_monotone:
  assumes "loop_body config decoder ev s = Inr s'"
  shows "packet_count s \<le> packet_count s' \<and> bytes_received s \<le> bytes_received s' \<and>
    latency_count s \<le> latency_count s' \<and> start_time s' = start_time s \<and>
    (clock_not_behind ev \<longrightarrow> total_latency_us s \<le> total_latency_us s')"
proof -
  obtain data receive_time now where ev: "ev = (data, receive_time, now)"
    by (cases ev)
  obtain b s1 where h: "handle_datagram decoder data receive_time s = Inr (b, s1)"
    and m: "packet_count s \<le> packet_count s1" "bytes_received s \<le> bytes_received s1"
      "latency_count s \<le> latency_count s1" "start_time s1 = start_time s"
      "clock_not_behind (data, receive_time, now) \<longrightarrow>
         total_latency_us s \<le> total_latency_us s1"
    using handle_datagram_monotone [of decoder data receive_time s now] by blast
  show ?thesis
  proof (cases b)
    case True
    then have "report_stats config now s1 = Inr s'"
      using assms h by (simp add: loop_body_def ev)
    from report_stats_fields [OF this] m show ?thesis by (simp add: ev)
  next
    case False
    then have "s' = s1"
      using assms h by (simp add: loop_body_def ev)
    then show ?thesis using m by (simp add: ev)
  qed
qed

lemma receive_loop_monotone:
  "receive_loop config decoder events s = Inr s' \<Longrightarrow>
    packet_count s \<le> packet_count s' \<and> bytes_received s \<le> bytes_received s' \<and>
    latency_count s \<le> latency_count s' \<and> start_time s' = start_time s \<and>
    (list_all clock_not_behind events \<longrightarrow> total_latency_us s \<le> total_latency_us s')"
proof (induction events arbitrary: s)
  case Nil
  then show ?case by simp
next
  case (Cons ev evs)
  from Cons.prems obtain s1 where b: "loop_body config decoder ev s = Inr s1"
    and r: "receive_loop config decoder evs s1 = Inr s'"
    by (auto split: sum.splits)
  from loop_body_monotone [OF b] Cons.IH [OF r] show ?case
    by auto
qed

lemma loop_body_returns:
  assumes "start_time s \<le> last_report s"
    and "compression config \<noteq> 1 \<or> sample_rate config * channels config \<noteq> 0"
  shows "\<exists>s'. loop_body config decoder ev s = Inr s' \<and> start_time s' \<le> last_report s'"
proof -
  obtain data receive_time now where ev: "ev = (data, receive_time, now)"
    by (cases ev)
  obtain b s1 where h: "handle_datagram decoder data receive_time s = Inr (b, s1)"
    and m: "start_time s1 = start_time s" "last_report s1 = last_report s"
    using handle_datagram_monotone [of decoder data receive_time s] by blast
  show ?thesis
  proof (cases b)
    case True
    have "start_time s1 \<le> last_report s1" using m assms(1) by simp
    from report_stats_returns [OF this assms(2), of now] show ?thesis
      using h True by (simp add: loop_body_def ev)
  next
    case False
    then show ?thesis
      using h m assms(1) by (simp add: loop_body_def ev)
  qed
qed

lemma receive_loop_returns:
  assumes "compression config \<noteq> 1 \<or> sample_rate config * channels config \<noteq> 0"
  shows "start_time s \<le> last_report s \<Longrightarrow>
    \<exists>s'. receive_loop config decoder events s = Inr s'"
proof (induction events arbitrary: s)
  case Nil
  then show ?case by simp
next
  case (Cons ev evs)
  from loop_body_returns [OF Cons.prems assms, of decoder ev]
  obtain s1 where b: "loop_body config decoder ev s = Inr s1"
    and i: "start_time s1 \<le> last_report s1" by blast
  from Cons.IH [OF i] show ?case by (simp add: b)
qed


lemmas loop_eval =
  receive_loop.simps loop_body_def handle_datagram_def report_stats_def play_def
  parse_audio_packet_def py_index_def unpack_le_def py_slice_def HEADER_MAGIC_def
  PACKET_TYPE_OPUS_def get_def add_def deque_append_def size_jb_def
  JITTER_BUFFER_MIN_def JITTER_BUFFER_SIZE_def JitterBuffer_init_def init_state_def Let_def

lemma parse_audio_packet_encoded:
  assumes "0 \<le> T" "T < 2 ^ 64" "0 \<le> n" "n < 2 ^ 16"
  shows "parse_audio_packet ([ty] @ pack_le 8 T @ pack_le 2 n @ payload) =
    Inr (Some \<lparr>pkt_type = uint ty, pkt_timestamp = T, pkt_size = n,
               pkt_data = take (nat n) payload\<rparr>)"
proof -
  let ?d = "[ty] @ pack_le 8 T @ pack_le 2 n @ payload"
  have len: "11 \<le> length ?d"
    by (simp add: length_pack_le)
  have t: "py_slice 1 9 ?d = pack_le 8 T"
    using py_slice_mid [of "[ty]" 1 "pack_le 8 T" 9] by (simp add: length_pack_le)
  have z: "py_slice 9 11 ?d = pack_le 2 n"
    using py_slice_mid [of "[ty] @ pack_le 8 T" 9 "pack_le 2 n" 11]
    by (simp add: length_pack_le)
  have p: "py_slice 11 (11 + nat n) ?d = take (nat n) payload"
    by (simp add: py_slice_def length_pack_le)
  have v: "le_value (pack_le 8 T) = T" "le_value (pack_le 2 n) = n"
    using assms by (simp_all add: le_value_pack_le)
  show ?thesis
    unfolding parse_audio_packet_Some [OF len] t z v p by simp
qed

text \<open>
  C6, as stated, fails for the latency sum: a frame whose origin timestamp (10000) is
  ahead of the receive clock (5000) lowers the cumulative latency sum from 0 to -5000.
\<close>

theorem latency_sum_counterexample:
  "total_latency_us (init_state 0) = 0 \<and>
   receive_loop
     \<lparr>sample_rate = 48000, channels = 2, version = 1, compression = 0,
      compression_name = ''Raw''\<rparr>
     None [([0, 0x10, 0x27, 0, 0, 0, 0, 0, 0, 0, 0], 5000, 1)] (init_state 0) =
     Inr \<lparr>packet_count = 1, bytes_received = 11, total_latency_us = - 5000,
          latency_count = 1, start_time = 0, last_report = 0,
          jitter_buffer = \<lparr>buffer = [[]], maxlen = 10\<rparr>, stream = [], printed = []\<rparr>"
  by (simp add: loop_eval)

text \<open>
  C6, amended: over every sequence of iterations of the streaming loop the packet count,
  the cumulative bytes and the latency count never decrease, and the cumulative latency
  sum never decreases as long as no processed frame has an origin timestamp later than
  its receive time. All four start at 0 when the loop state is created. The loop
  reaches the end of every finite sequence of datagrams (it does not raise) when it
  starts with \<open>start_time \<le> last_report\<close> and the header does not declare compression
  with a zero sample rate or channel count.
\<close>

theorem stats_counters_monotone:
  "((compression config \<noteq> 1 \<or> sample_rate config * channels config \<noteq> 0) \<and>
      start_time s \<le> last_report s \<longrightarrow>
      (\<exists>s1. receive_loop config decoder events s = Inr s1)) \<and>
   (receive_loop config decoder events s = Inr s' \<longrightarrow>
      packet_count s \<le> packet_count s' \<and> bytes_received s \<le> bytes_received s' \<and>
      latency_count s \<le> latency_count s' \<and>
      (list_all clock_not_behind events \<longrightarrow> total_latency_us s \<le> total_latency_us s')) \<and>
   packet_count (init_state t0) = 0 \<and> bytes_received (init_state t0) = 0 \<and>
   total_latency_us (init_state t0) = 0 \<and> latency_count (init_state t0) = 0"
  using receive_loop_returns [of config s decoder events]
    receive_loop_monotone [of config decoder events s s']
  by (simp add: init_state_def)

text \<open>
  C6, witness: two raw frames, each received 5000 microseconds after its origin
  timestamp, with a repeated header between them.
\<close>

theorem stats_counters_monotone_witness:
  "receive_loop
     \<lparr>sample_rate = 48000, channels = 2, version = 1, compression = 0,
      compression_name = ''Raw''\<rparr>
     None
     [([0, 0x10, 0x27, 0, 0, 0, 0, 0, 0, 1, 0, 0xAA], 15000, 1),
      ([0x53, 0x59, 0x4E, 0x43, 1, 0x80, 0xBB, 0, 0, 2, 0, 0], 16000, 2),
      ([0, 0x20, 0x4E, 0, 0, 0, 0, 0, 0, 1, 0, 0xBB], 25000, 1)] (init_state 0) =
     Inr \<lparr>packet_count = 2, bytes_received = 24, total_latency_us = 10000,
          latency_count = 2, start_time = 0, last_report = 0,
          jitter_buffer = \<lparr>buffer = [[0xAA], [0xBB]], maxlen = 10\<rparr>, stream = [],
          printed = []\<rparr> \<and>
   list_all clock_not_behind
     [([0, 0x10, 0x27, 0, 0, 0, 0, 0, 0, 1, 0, 0xAA], 15000, 1),
      ([0x53, 0x59, 0x4E, 0x43, 1, 0x80, 0xBB, 0, 0, 2, 0, 0], 16000, 2),
      ([0, 0x20, 0x4E, 0, 0, 0, 0, 0, 0, 1, 0, 0xBB], 25000, 1)] \<and>
   packet_count (init_state 0) \<le> 2 \<and> bytes_received (init_state 0) \<le> 24 \<and>
   latency_count (init_state 0) \<le> 2 \<and> total_latency_us (init_state 0) \<le> 10000"
  using stats_counters_monotone
    [of "\<lparr>sample_rate = 48000, channels = 2, version = 1, compression = 0,
         compression_name = ''Raw''\<rparr>"
      "init_state 0" None
      "[([0, 0x10, 0x27, 0, 0, 0, 0, 0, 0, 1, 0, 0xAA], 15000, 1),
        ([0x53, 0x59, 0x4E, 0x43, 1, 0x80, 0xBB, 0, 0, 2, 0, 0], 16000, 2),
        ([0, 0x20, 0x4E, 0, 0, 0, 0, 0, 0, 1, 0, 0xBB], 25000, 1)]"
      "\<lparr>packet_count = 2, bytes_received = 24, total_latency_us = 10000,
          latency_count = 2, start_time = 0, last_report = 0,
          jitter_buffer = \<lparr>buffer = [[0xAA], [0xBB]], maxlen = 10\<rparr>, stream = [],
          printed = []\<rparr>" 0]
  by (simp add: loop_eval clock_not_behind_def)

lemma not_header_by_type:
  assumes "ty \<noteq> 0x53"
  shows "\<not> (length (ty # rest) = 12 \<and> py_slice 0 4 (ty # rest) = HEADER_MAGIC)"
  using assms by (auto simp: py_slice_def HEADER_MAGIC_def)

text \<open>
  C7: for every datagram that the streaming loop takes as an audio frame (it is not
  skipped as a repeated header and \<open>parse_audio_packet\<close> returns a packet), the loop
  adds exactly \<open>receive_time - timestamp\<close> to \<open>total_latency_us\<close> and 1 to
  \<open>latency_count\<close>; a frame that carries the origin timestamp \<open>T\<close> on the wire and is
  received at \<open>T + 5000\<close> adds exactly 5000. Nothing else changes the sum and the count:
  a skipped datagram leaves the whole state as it is, and so does the report for these
  two fields.
\<close>

theorem latency_sample_is_receive_minus_origin:
  "(\<not> (length data = 12 \<and> take 4 data = HEADER_MAGIC) \<and>
      parse_audio_packet data = Inr (Some packet) \<longrightarrow>
      (\<exists>b s'. handle_datagram decoder data receive_time s = Inr (b, s') \<and>
         total_latency_us s' = total_latency_us s + (receive_time - pkt_timestamp packet) \<and>
         latency_count s' = latency_count s + 1)) \<and>
   (0 \<le> T \<and> T < 2 ^ 64 \<and> 0 \<le> n \<and> n < 2 ^ 16 \<and> ty \<noteq> 0x53 \<longrightarrow>
      (\<exists>b s'. handle_datagram decoder ([ty] @ pack_le 8 T @ pack_le 2 n @ payload)
                 (T + 5000) s = Inr (b, s') \<and>
         total_latency_us s' - total_latency_us s = 5000 \<and>
         latency_count s' = latency_count s + 1)) \<and>
   ((length data = 12 \<and> take 4 data = HEADER_MAGIC) \<or> length data < 11 \<longrightarrow>
      handle_datagram decoder data receive_time s = Inr (False, s)) \<and>
   (report_stats config now s = Inr sr \<longrightarrow>
      total_latency_us sr = total_latency_us s \<and> latency_count sr = latency_count s)"
proof (intro conjI impI)
  assume a: "\<not> (length data = 12 \<and> take 4 data = HEADER_MAGIC) \<and>
      parse_audio_packet data = Inr (Some packet)"
  then have nh: "\<not> (length data = 12 \<and> py_slice 0 4 data = HEADER_MAGIC)"
    and p: "parse_audio_packet data = Inr (Some packet)"
    by (simp_all add: take4_slice)
  from handle_datagram_counted [OF nh p, of decoder receive_time s]
  show "\<exists>b s'. handle_datagram decoder data receive_time s = Inr (b, s') \<and>
         total_latency_us s' = total_latency_us s + (receive_time - pkt_timestamp packet) \<and>
         latency_count s' = latency_count s + 1"
    by blast
next
  assume a: "0 \<le> T \<and> T < 2 ^ 64 \<and> 0 \<le> n \<and> n < 2 ^ 16 \<and> ty \<noteq> 0x53"
  let ?d = "[ty] @ pack_le 8 T @ pack_le 2 n @ payload"
  have p: "parse_audio_packet ?d =
      Inr (Some \<lparr>pkt_type = uint ty, pkt_timestamp = T, pkt_size = n,
                 pkt_data = take (nat n) payload\<rparr>)"
    using a by (intro parse_audio_packet_encoded) simp_all
  have nh: "\<not> (length ?d = 12 \<and> py_slice 0 4 ?d = HEADER_MAGIC)"
    using not_header_by_type [of ty "pack_le 8 T @ pack_le 2 n @ payload"] a by simp
  from handle_datagram_counted [OF nh p, of decoder "T + 5000" s]
  show "\<exists>b s'. handle_datagram decoder ?d (T + 5000) s = Inr (b, s') \<and>
         total_latency_us s' - total_latency_us s = 5000 \<and>
         latency_count s' = latency_count s + 1"
    by auto
next
  assume "(length data = 12 \<and> take 4 data = HEADER_MAGIC) \<or> length data < 11"
  then have "(length data = 12 \<and> py_slice 0 4 data = HEADER_MAGIC) \<or> length data < 11"
    by (simp add: take4_slice)
  then show "handle_datagram decoder data receive_time s = Inr (False, s)"
    by (rule handle_datagram_skipped)
next
  assume r: "report_stats config now s = Inr sr"
  show "total_latency_us sr = total_latency_us s"
    by (rule report_stats_fields(3) [OF r])
next
  assume r: "report_stats config now s = Inr sr"
  show "latency_count sr = latency_count s"
    by (rule report_stats_fields(4) [OF r])
qed

text \<open>
  C7, witness: a raw frame stamped 1000000 and received at 1005000, and a repeated
  header.
\<close>

theorem latency_sample_is_receive_minus_origin_witness:
  "(\<exists>b s'. handle_datagram None ([0] @ pack_le 8 1000000 @ pack_le 2 1 @ [0xAA])
       (1000000 + 5000) (init_state 0) = Inr (b, s') \<and>
       total_latency_us s' - total_latency_us (init_state 0) = 5000 \<and>
       latency_count s' = latency_count (init_state 0) + 1) \<and>
   handle_datagram None [0x53, 0x59, 0x4E, 0x43, 1, 0x80, 0xBB, 0, 0, 2, 0, 0] 7
     (init_state 0) = Inr (False, init_state 0)"
proof -
  have "(0::int) \<le> 1000000 \<and> (1000000::int) < 2 ^ 64 \<and> (0::int) \<le> 1 \<and>
      (1::int) < 2 ^ 16 \<and> (0::byte) \<noteq> 0x53"
    by simp
  moreover have "length [0x53, 0x59, 0x4E, 0x43, 1, 0x80, 0xBB, 0, 0, 2, 0, 0 :: byte] = 12 \<and>
      take 4 [0x53, 0x59, 0x4E, 0x43, 1, 0x80, 0xBB, 0, 0, 2, 0, 0 :: byte] = HEADER_MAGIC"
    by (simp add: HEADER_MAGIC_def)
  ultimately show ?thesis
    using latency_sample_is_receive_minus_origin
      [where T = 1000000 and n = 1 and ty = 0 and payload = "[0xAA]" and decoder = None
        and s = "init_state 0"
        and data = "[0x53, 0x59, 0x4E, 0x43, 1, 0x80, 0xBB, 0, 0, 2, 0, 0]"
        and receive_time = 7]
    by blast
qed


text \<open>
  C8, as stated, fails in its last part: a compressed frame whose decode raises is not
  skipped without a trace. The counters are updated before the decode, so the state
  after the frame differs from the state before it in the packet count, the bytes, the
  latency sum and the latency count.
\<close>

theorem decode_error_counterexample:
  "packet_count (init_state 0) = 0 \<and> latency_count (init_state 0) = 0 \<and>
   handle_datagram (Some (\<lambda>payload. Inl OpusError))
     [1, 0x10, 0x27, 0, 0, 0, 0, 0, 0, 2, 0, 0xAA, 0xBB] 15000 (init_state 0) =
     Inr (False,
       \<lparr>packet_count = 1, bytes_received = 13, total_latency_us = 5000,
        latency_count = 1, start_time = 0, last_report = 0,
        jitter_buffer = \<lparr>buffer = [], maxlen = 10\<rparr>, stream = [], printed = []\<rparr>)"
  by (simp add: loop_eval)

text \<open>
  C8, amended: for every compressed frame whose decode raises, the exception is caught:
  the loop body ends in \<open>continue\<close> and the loop goes on with the next datagram.
  Nothing is pushed into the jitter buffer, nothing is popped or written to the stream,
  no report is printed; the frame is still counted, in the packet count, the cumulative
  bytes, the latency sum and the latency count.
\<close>

theorem decode_error_drops_frame:
  "\<not> (length data = 12 \<and> take 4 data = HEADER_MAGIC) \<Longrightarrow>
   parse_audio_packet data = Inr (Some packet) \<Longrightarrow>
   pkt_type packet = PACKET_TYPE_OPUS \<Longrightarrow>
   dec (pkt_data packet) = Inl err \<Longrightarrow>
   s' = s\<lparr>packet_count := packet_count s + 1,
          bytes_received := bytes_received s + int (length data),
          total_latency_us := total_latency_us s + (receive_time - pkt_timestamp packet),
          latency_count := latency_count s + 1\<rparr> \<Longrightarrow>
     handle_datagram (Some dec) data receive_time s = Inr (False, s') \<and>
     loop_body config (Some dec) (data, receive_time, now) s = Inr s' \<and>
     receive_loop config (Some dec) ((data, receive_time, now) # evs) s =
       receive_loop config (Some dec) evs s' \<and>
     jitter_buffer s' = jitter_buffer s \<and> stream s' = stream s \<and>
     printed s' = printed s \<and> start_time s' = start_time s \<and>
     last_report s' = last_report s"
proof -
  assume nh: "\<not> (length data = 12 \<and> take 4 data = HEADER_MAGIC)"
    and p: "parse_audio_packet data = Inr (Some packet)"
    and ty: "pkt_type packet = PACKET_TYPE_OPUS"
    and d: "dec (pkt_data packet) = Inl err"
    and s': "s' = s\<lparr>packet_count := packet_count s + 1,
          bytes_received := bytes_received s + int (length data),
          total_latency_us := total_latency_us s + (receive_time - pkt_timestamp packet),
          latency_count := latency_count s + 1\<rparr>"
  have nh': "\<not> (length data = 12 \<and> py_slice 0 4 data = HEADER_MAGIC)"
    using nh by (simp add: take4_slice)
  have h: "handle_datagram (Some dec) data receive_time s = Inr (False, s')"
    using nh' p ty d by (auto simp: handle_datagram_def Let_def s')
  then have b: "loop_body config (Some dec) (data, receive_time, now) s = Inr s'"
    by (simp add: loop_body_def)
  then have "receive_loop config (Some dec) ((data, receive_time, now) # evs) s =
      receive_loop config (Some dec) evs s'"
    by simp
  with h b show ?thesis
    by (simp add: s')
qed

text \<open>
  C8, witness: a decoder that fails on the first frame's payload and decodes the second.
\<close>

theorem decode_error_drops_frame_witness:
  "receive_loop
     \<lparr>sample_rate = 48000, channels = 2, version = 1, compression = 1,
      compression_name = ''Opus''\<rparr>
     (Some (\<lambda>payload. if payload = [0xAA, 0xBB] then Inl OpusError else Inr [1, 2, 3, 4]))
     [([1, 0x10, 0x27, 0, 0, 0, 0, 0, 0, 2, 0, 0xAA, 0xBB], 15000, 1),
      ([1, 0x20, 0x4E, 0, 0, 0, 0, 0, 0, 1, 0, 0xCC], 25000, 1)] (init_state 0) =
     Inr \<lparr>packet_count = 2, bytes_received = 25, total_latency_us = 10000,
          latency_count = 2, start_time = 0, last_report = 0,
          jitter_buffer = \<lparr>buffer = [[1, 2, 3, 4]], maxlen = 10\<rparr>, stream = [],
          printed = []\<rparr>"
proof -
  let ?cfg = "\<lparr>sample_rate = 48000, channels = 2, version = 1, compression = 1,
      compression_name = ''Opus''\<rparr>"
  let ?dec = "\<lambda>payload :: bytes.
      if payload = [0xAA, 0xBB] then Inl OpusError else (Inr [1, 2, 3, 4] :: py_error + bytes)"
  let ?d = "[1, 0x10, 0x27, 0, 0, 0, 0, 0, 0, 2, 0, 0xAA, 0xBB] :: bytes"
  let ?p = "\<lparr>pkt_type = 1, pkt_timestamp = 10000, pkt_size = 2, pkt_data = [0xAA, 0xBB]\<rparr>"
  let ?s' = "\<lparr>packet_count = 1, bytes_received = 13, total_latency_us = 5000,
      latency_count = 1, start_time = 0, last_report = 0,
      jitter_buffer = \<lparr>buffer = [], maxlen = 10\<rparr>, stream = [], printed = []\<rparr>"
  have 1: "\<not> (length ?d = 12 \<and> take 4 ?d = HEADER_MAGIC)"
    by simp
  have 2: "parse_audio_packet ?d = Inr (Some ?p)"
    by (simp add: parse_audio_packet_def py_index_def unpack_le_def py_slice_def)
  have 3: "pkt_type ?p = PACKET_TYPE_OPUS"
    by (simp add: PACKET_TYPE_OPUS_def)
  have 4: "?dec (pkt_data ?p) = Inl OpusError"
    by simp
  have 5: "?s' = (init_state 0)\<lparr>packet_count := packet_count (init_state 0) + 1,
          bytes_received := bytes_received (init_state 0) + int (length ?d),
          total_latency_us := total_latency_us (init_state 0) + (15000 - pkt_timestamp ?p),
          latency_count := latency_count (init_state 0) + 1\<rparr>"
    by (simp add: init_state_def JitterBuffer_init_def JITTER_BUFFER_SIZE_def)
  have "receive_loop ?cfg (Some ?dec)
      ((?d, 15000, 1) # [([1, 0x20, 0x4E, 0, 0, 0, 0, 0, 0, 1, 0, 0xCC], 25000, 1)])
      (init_state 0) =
    receive_loop ?cfg (Some ?dec)
      [([1, 0x20, 0x4E, 0, 0, 0, 0, 0, 0, 1, 0, 0xCC], 25000, 1)] ?s'"
    using 1 2 3 4 5
      decode_error_drops_frame [where data = ?d and packet = ?p and dec = ?dec
        and err = OpusError and s = "init_state 0" and s' = ?s' and receive_time = 15000
        and config = ?cfg and now = 1
        and evs = "[([1, 0x20, 0x4E, 0, 0, 0, 0, 0, 0, 1, 0, 0xCC], 25000, 1)]"]
    by blast
  also have "\<dots> = Inr \<lparr>packet_count = 2, bytes_received = 25, total_latency_us = 10000,
          latency_count = 2, start_time = 0, last_report = 0,
          jitter_buffer = \<lparr>buffer = [[1, 2, 3, 4]], maxlen = 10\<rparr>, stream = [],
          printed = []\<rparr>"
    by (simp add: loop_eval)
  finally show ?thesis .
qed

text \<open>
  C2, the code at the failing input: the header declares compression and \<open>opuslib\<close>
  is not available, so \<open>decoder\<close> is \<open>None\<close>; a frame of type 1 then takes the
  branch for raw audio and its undecoded payload is pushed into the jitter buffer, and
  with the third such frame the first payload is written to the audio stream.
\<close>

theorem undecoded_opus_frame_buffered:
  "setup_decoder
     \<lparr>sample_rate = 48000, channels = 2, version = 1, compression = 1,
      compression_name = ''Opus''\<rparr> False (\<lambda>rate ch. Inl OpusError) = None \<and>
   handle_datagram None [1, 0x10, 0x27, 0, 0, 0, 0, 0, 0, 2, 0, 0xAA, 0xBB] 15000
     (init_state 0) =
     Inr (True,
       \<lparr>packet_count = 1, bytes_received = 13, total_latency_us = 5000,
        latency_count = 1, start_time = 0, last_report = 0,
        jitter_buffer = \<lparr>buffer = [[0xAA, 0xBB]], maxlen = 10\<rparr>, stream = [],
        printed = []\<rparr>) \<and>
   receive_loop
     \<lparr>sample_rate = 48000, channels = 2, version = 1, compression = 1,
      compression_name = ''Opus''\<rparr>
     None
     [([1, 0x10, 0x27, 0, 0, 0, 0, 0, 0, 2, 0, 0xAA, 0xBB], 15000, 1),
      ([1, 0x10, 0x27, 0, 0, 0, 0, 0, 0, 2, 0, 0xAC, 0xBC], 15000, 1),
      ([1, 0x10, 0x27, 0, 0, 0, 0, 0, 0, 2, 0, 0xAD, 0xBD], 15000, 1)] (init_state 0) =
     Inr \<lparr>packet_count = 3, bytes_received = 39, total_latency_us = 15000,
          latency_count = 3, start_time = 0, last_report = 0,
          jitter_buffer = \<lparr>buffer = [[0xAC, 0xBC], [0xAD, 0xBD]], maxlen = 10\<rparr>,
          stream = [[0xAA, 0xBB]], printed = []\<rparr>"
  by (simp add: loop_eval setup_decoder_def)











end
